theory Spec2Isabelle
  imports Main
begin

section \<open>Python string operations used by the registry lookup\<close>

text \<open>
  A Python \<open>str\<close> is modelled as a \<open>string\<close> whose characters are the code points
  below 256; the output of \<open>pip\<close> that the lookup reads is of that kind. The
  functions below follow \<open>str.splitlines\<close>, the operator \<open>in\<close> on strings,
  \<open>str.split(sep)\<close> and \<open>str.strip()\<close> on such strings.
\<close>

definition is_linebreak :: "char \<Rightarrow> bool" where
  \<comment> \<open>the line boundaries of \<open>str.splitlines\<close> below 256:
      LF, VT, FF, CR, FS, GS, RS and NEL\<close>
  "is_linebreak c = (of_char c \<in> {10, 11, 12, 13, 28, 29, 30, 133 :: nat})"

definition is_space :: "char \<Rightarrow> bool" where
  \<comment> \<open>the characters below 256 for which \<open>str.isspace\<close> holds\<close>
  "is_space c = (of_char c \<in> {9, 10, 11, 12, 13, 28, 29, 30, 31, 32, 133, 160 :: nat})"

fun splitlines_from :: "string \<Rightarrow> string \<Rightarrow> string list" where
  \<comment> \<open>\<open>cur\<close> is the line read so far; CR LF counts as one boundary, and a boundary
      at the very end opens no further line\<close>
  "splitlines_from cur [] = (if cur = [] then [] else [cur])"
| "splitlines_from cur [c] = (if is_linebreak c then [cur] else [cur @ [c]])"
| "splitlines_from cur (c # d # ds) =
     (if of_char c = (13::nat) \<and> of_char d = (10::nat) then
        (if ds = [] then [cur] else cur # splitlines_from [] ds)
      else if is_linebreak c then cur # splitlines_from [] (d # ds)
      else splitlines_from (cur @ [c]) (d # ds))"

definition splitlines :: "string \<Rightarrow> string list" where
  "splitlines s = splitlines_from [] s"

fun startswith :: "string \<Rightarrow> string \<Rightarrow> bool" where
  \<comment> \<open>\<open>startswith s p\<close>: \<open>s.startswith(p)\<close>\<close>
  "startswith s [] = True"
| "startswith [] (p # ps) = False"
| "startswith (c # cs) (p # ps) = (c = p \<and> startswith cs ps)"

fun contains :: "string \<Rightarrow> string \<Rightarrow> bool" where
  \<comment> \<open>\<open>contains s sub\<close>: \<open>sub in s\<close>\<close>
  "contains [] sub = (sub = [])"
| "contains (c # cs) sub = (startswith (c # cs) sub \<or> contains cs sub)"

fun split_from :: "char \<Rightarrow> string \<Rightarrow> string \<Rightarrow> string list" where
  "split_from sep cur [] = [cur]"
| "split_from sep cur (c # cs) =
     (if c = sep then cur # split_from sep [] cs else split_from sep (cur @ [c]) cs)"

definition split_str :: "string \<Rightarrow> char \<Rightarrow> string list" where
  \<comment> \<open>\<open>split_str s sep\<close>: \<open>s.split(sep)\<close> for a separator of one character\<close>
  "split_str s sep = split_from sep [] s"

definition strip :: "string \<Rightarrow> string" where
  "strip s = dropWhile is_space (rev (dropWhile is_space (rev s)))"


section \<open>Exceptions\<close>

text \<open>
  The exceptions that reach the handlers of \<open>main\<close>: all are subclasses of
  \<open>Exception\<close>. \<open>CalledProcessError\<close> is raised by \<open>subprocess.run(..., check=True)\<close>
  on a non-zero exit status, \<open>InvalidVersion\<close> by \<open>version.parse\<close>, and
  \<open>OtherException\<close> stands for any other one (an \<open>OSError\<close> of the subprocess call,
  a decoding error).
\<close>

datatype exn = CalledProcessError | InvalidVersion | OtherException


section \<open>check\_package\_availability\<close>

text \<open>
  The loop of lines 75 to 80: the first line that contains \<open>Latest version\<close> and
  splits at \<open>:\<close> into more than one part decides; without such a line the
  function returns \<open>None\<close>.
\<close>

fun scan_lines :: "string list \<Rightarrow> string option" where
  "scan_lines [] = None"
| "scan_lines (line # rest) =
     (if contains line ''Latest version'' then
        (let parts = split_str line (CHR '':'') in
         if length parts > 1 then Some (strip (parts ! 1)) else scan_lines rest)
      else scan_lines rest)"

text \<open>
  \<open>subprocess.run\<close> is the parameter \<open>run\<close>: for a package name and an index URL
  it raises or gives the captured standard output. Both \<open>except\<close> clauses of the
  function log and raise the exception again.
\<close>

definition check_package_availability ::
  "(string \<Rightarrow> string \<Rightarrow> exn + string) \<Rightarrow> string \<Rightarrow> string \<Rightarrow> exn + string option" where
  "check_package_availability run package_name pypi_url =
     (case run package_name pypi_url of
        Inl e \<Rightarrow> Inl e
      | Inr stdout \<Rightarrow>
          if stdout \<noteq> [] then Inr (scan_lines (splitlines stdout))
          else Inr None)"


section \<open>get\_installed\_packages\<close>

fun dict_set :: "('k \<times> 'v) list \<Rightarrow> 'k \<Rightarrow> 'v \<Rightarrow> ('k \<times> 'v) list" where
  \<comment> \<open>\<open>d[k] = v\<close> on a Python dict, kept in insertion order: an existing key keeps
      its place and takes the new value, a new key goes to the end\<close>
  "dict_set [] k v = [(k, v)]"
| "dict_set ((k', v') # d) k v =
     (if k' = k then (k, v) # d else (k', v') # dict_set d k v)"

fun collect_packages ::
  "(string \<times> string option) list \<Rightarrow> (string \<times> string) list \<Rightarrow> (string \<times> string option) list" where
  "collect_packages installed_packages [] = installed_packages"
| "collect_packages installed_packages ((key, ver) # rest) =
     collect_packages (dict_set installed_packages key (Some ver)) rest"

text \<open>
  \<open>pkg_resources.working_set\<close> is the parameter: the (key, version) pairs it
  enumerates, or an exception raised while enumerating, in which case the function
  returns the empty dict.
\<close>

definition get_installed_packages ::
  "exn + (string \<times> string) list \<Rightarrow> (string \<times> string option) list" where
  "get_installed_packages working_set =
     (case working_set of
        Inl e \<Rightarrow> []
      | Inr ws \<Rightarrow> collect_packages [] ws)"


section \<open>main\<close>

record args =
  arg_package :: "string option"
  arg_pypi_url :: string
  arg_verbose :: bool

record vuln =
  v_package :: string
  v_installed_version :: string
  v_pypi_version :: string

text \<open>
  What the body of the loop does for one package, named after the outcome of the
  specification it corresponds to:
  \<^item> \<open>NotOnRegistry\<close>: line 136, the lookup returned \<open>None\<close>;
  \<^item> \<open>Confused\<close>: lines 142 to 150, the warning and the entry appended to
    \<open>vulnerable_packages\<close>;
  \<^item> \<open>UpToDate\<close>: line 152;
  \<^item> \<open>LookupFailed\<close>: line 155, the handler of \<open>CalledProcessError\<close>;
  \<^item> \<open>ErrorOccurred e\<close>: line 157, the handler of any other \<open>Exception\<close>, which
    logs the exception \<open>e\<close>. \<open>ErrorOccurred InvalidVersion\<close> is the outcome
    Unparseable of the specification.
\<close>

datatype outcome =
  NotOnRegistry | Confused | UpToDate | LookupFailed | ErrorOccurred exn

fun handler :: "exn \<Rightarrow> outcome" where
  "handler CalledProcessError = LookupFailed"
| "handler e = ErrorOccurred e"

record scan_state =
  vulnerable_packages :: "vuln list"
  outcomes :: "(string \<times> outcome) list"

definition logged :: "scan_state \<Rightarrow> string \<Rightarrow> outcome \<Rightarrow> scan_state" where
  "logged st package_name oc = st\<lparr>outcomes := outcomes st @ [(package_name, oc)]\<rparr>"

text \<open>
  Line 138: \<open>version.parse(installed_version) if installed_version else None\<close>.
  \<open>None\<close> and the empty string are both false. \<open>version.parse\<close> is the parameter
  \<open>parse\<close>, with \<open>None\<close> for a raised \<open>InvalidVersion\<close>. The version string is kept
  beside the parsed object, for line 148.
\<close>

definition parse_installed ::
  "(string \<Rightarrow> 'v option) \<Rightarrow> string option \<Rightarrow> exn + (string \<times> 'v) option" where
  "parse_installed parse installed_version =
     (case installed_version of
        None \<Rightarrow> Inr None
      | Some s \<Rightarrow>
          if s = [] then Inr None
          else (case parse s of
                  None \<Rightarrow> Inl InvalidVersion
                | Some v \<Rightarrow> Inr (Some (s, v))))"

text \<open>
  The body of the loop (lines 131 to 157). \<open>gt\<close> is the comparison \<open>>\<close> of the
  version objects.
\<close>

definition loop_body ::
  "(string \<Rightarrow> 'v option) \<Rightarrow> ('v \<Rightarrow> 'v \<Rightarrow> bool) \<Rightarrow> (string \<Rightarrow> string \<Rightarrow> exn + string) \<Rightarrow> string
    \<Rightarrow> scan_state \<Rightarrow> string \<Rightarrow> string option \<Rightarrow> scan_state" where
  "loop_body parse gt run pypi_url st package_name installed_version =
     (case check_package_availability run package_name pypi_url of
        Inl e \<Rightarrow> logged st package_name (handler e)
      | Inr None \<Rightarrow> logged st package_name NotOnRegistry
      | Inr (Some pypi_version) \<Rightarrow>
          (case parse_installed parse installed_version of
             Inl e \<Rightarrow> logged st package_name (handler e)
           | Inr installed_version_obj \<Rightarrow>
               (case parse pypi_version of
                  None \<Rightarrow> logged st package_name (handler InvalidVersion)
                | Some pypi_version_obj \<Rightarrow>
                    (case installed_version_obj of
                       None \<Rightarrow> logged st package_name UpToDate
                     | Some (s, v) \<Rightarrow>
                         if gt v pypi_version_obj then
                           (logged st package_name Confused)
                             \<lparr>vulnerable_packages := vulnerable_packages st @
                                [\<lparr>v_package = package_name, v_installed_version = s,
                                  v_pypi_version = pypi_version\<rparr>]\<rparr>
                         else logged st package_name UpToDate))))"

fun scan ::
  "(string \<Rightarrow> 'v option) \<Rightarrow> ('v \<Rightarrow> 'v \<Rightarrow> bool) \<Rightarrow> (string \<Rightarrow> string \<Rightarrow> exn + string) \<Rightarrow> string
    \<Rightarrow> scan_state \<Rightarrow> (string \<times> string option) list \<Rightarrow> scan_state" where
  "scan parse gt run pypi_url st [] = st"
| "scan parse gt run pypi_url st ((package_name, installed_version) # rest) =
     scan parse gt run pypi_url
       (loop_body parse gt run pypi_url st package_name installed_version) rest"

record result =
  report :: "(string \<times> outcome) list"
  vulnerable :: "vuln list"
  exit_code :: int

definition packages_to_check ::
  "exn + (string \<times> string) list \<Rightarrow> args \<Rightarrow> (string \<times> string option) list" where
  \<comment> \<open>lines 119 to 122; \<open>if args.package\<close> is false for \<open>None\<close> and for the empty string\<close>
  "packages_to_check working_set a =
     (case arg_package a of
        None \<Rightarrow> get_installed_packages working_set
      | Some p \<Rightarrow> if p = [] then get_installed_packages working_set else [(p, None)])"

definition main ::
  "(string \<Rightarrow> 'v option) \<Rightarrow> ('v \<Rightarrow> 'v \<Rightarrow> bool) \<Rightarrow> (string \<Rightarrow> string \<Rightarrow> exn + string)
    \<Rightarrow> exn + (string \<times> string) list \<Rightarrow> args \<Rightarrow> result" where
  "main parse gt run working_set a =
     (let targets = packages_to_check working_set a in
      if targets = [] then \<lparr>report = [], vulnerable = [], exit_code = 0\<rparr>
      else
        (let st = scan parse gt run (arg_pypi_url a)
                    \<lparr>vulnerable_packages = [], outcomes = []\<rparr> targets
         in if vulnerable_packages st \<noteq> []
            then \<lparr>report = outcomes st, vulnerable = vulnerable_packages st, exit_code = 1\<rparr>
            else \<lparr>report = outcomes st, vulnerable = vulnerable_packages st, exit_code = 0\<rparr>))"

definition hasVulnerabilities :: "result \<Rightarrow> bool" where
  \<comment> \<open>the test of line 159\<close>
  "hasVulnerabilities r = (vulnerable r \<noteq> [])"

text \<open>
  The outcome that the body of the loop logs for one package: the entry it appends to
  \<open>outcomes\<close>, read off a run of the body itself.
\<close>

definition package_outcome ::
  "(string \<Rightarrow> 'v option) \<Rightarrow> ('v \<Rightarrow> 'v \<Rightarrow> bool) \<Rightarrow> (string \<Rightarrow> string \<Rightarrow> exn + string) \<Rightarrow> string
    \<Rightarrow> string \<Rightarrow> string option \<Rightarrow> outcome" where
  "package_outcome parse gt run pypi_url package_name installed_version =
     snd (last (outcomes (loop_body parse gt run pypi_url
        \<lparr>vulnerable_packages = [], outcomes = []\<rparr> package_name installed_version)))"

definition is_confused :: "string \<times> outcome \<Rightarrow> bool" where
  "is_confused entry = (snd entry = Confused)"


section \<open>The version model of the specification\<close>

text \<open>
  Modelled from the spec: the source takes \<open>version.parse\<close> and the comparison of
  versions from the library \<open>packaging\<close>, whose code is not part of the repository.
  A Version (section 3) is a sequence of numeric release segments and an optional
  qualifier, an alphabetic tag with a numeric suffix. The specification gives no
  syntax and no comparison rule for the local/build tag, which is left out.
\<close>

record version =
  release :: "nat list"
  qualifier :: "(string \<times> nat) option"

datatype cmp = Less | Equal | Greater

definition is_digit :: "char \<Rightarrow> bool" where
  \<comment> \<open>Modelled from the spec: a character of a numeric run, \<open>0\<close> to \<open>9\<close>\<close>
  "is_digit c = (48 \<le> (of_char c :: nat) \<and> (of_char c :: nat) \<le> 57)"

definition is_alpha :: "char \<Rightarrow> bool" where
  \<comment> \<open>Modelled from the spec: a character of an alphabetic tag, a letter\<close>
  "is_alpha c = ((65 \<le> (of_char c :: nat) \<and> (of_char c :: nat) \<le> 90) \<or>
                 (97 \<le> (of_char c :: nat) \<and> (of_char c :: nat) \<le> 122))"

definition number :: "string \<Rightarrow> nat" where
  \<comment> \<open>Modelled from the spec: a purely numeric segment interpreted as an integer\<close>
  "number ds = foldl (\<lambda>acc c. 10 * acc + (of_char c - 48)) 0 ds"

definition parse_qualifier :: "string \<Rightarrow> (string \<times> nat) option" where
  \<comment> \<open>Modelled from the spec: a qualifier is an (alphabetic-tag, numeric-suffix) pair,
      as in \<open>rc1\<close>; a missing suffix counts as 0\<close>
  "parse_qualifier q =
     (let tag = takeWhile is_alpha q; suffix = dropWhile is_alpha q
      in if tag \<noteq> [] \<and> list_all is_digit suffix then Some (tag, number suffix) else None)"

fun parse_segments :: "string list \<Rightarrow> version option" where
  \<comment> \<open>Modelled from the spec: each segment is an integer when it is purely numeric,
      otherwise the remainder forms a qualifier; the digits that lead the segment of
      the qualifier are the last release segment\<close>
  "parse_segments [] = Some \<lparr>release = [], qualifier = None\<rparr>"
| "parse_segments (seg # rest) =
     (if seg \<noteq> [] \<and> list_all is_digit seg then
        (case parse_segments rest of
           None \<Rightarrow> None
         | Some v \<Rightarrow> Some (v\<lparr>release := number seg # release v\<rparr>))
      else if rest \<noteq> [] then None
      else (case parse_qualifier (dropWhile is_digit seg) of
              None \<Rightarrow> None
            | Some q \<Rightarrow>
                Some \<lparr>release = (if takeWhile is_digit seg = [] then []
                                 else [number (takeWhile is_digit seg)]),
                      qualifier = Some q\<rparr>))"

definition version_parse :: "string \<Rightarrow> version option" where
  \<comment> \<open>Modelled from the spec: \<open>parse\<close> of section 4.1 on a present string, \<open>None\<close>
      for ParseFailure; the string is split at the dots, and an input without a
      leading numeric segment is a ParseFailure\<close>
  "version_parse raw =
     (case parse_segments (split_str raw (CHR ''.'')) of
        None \<Rightarrow> None
      | Some v \<Rightarrow> if release v = [] then None else Some v)"

fun lex_cmp :: "nat list \<Rightarrow> nat list \<Rightarrow> cmp" where
  \<comment> \<open>Modelled from the spec: pairwise comparison left to right, the first unequal
      pair decides\<close>
  "lex_cmp [] [] = Equal"
| "lex_cmp [] (y # ys) = Less"
| "lex_cmp (x # xs) [] = Greater"
| "lex_cmp (x # xs) (y # ys) =
     (if x < y then Less else if y < x then Greater else lex_cmp xs ys)"

definition pad :: "nat \<Rightarrow> nat list \<Rightarrow> nat list" where
  \<comment> \<open>Modelled from the spec: padding a sequence of segments with zeros to length \<open>n\<close>\<close>
  "pad n xs = xs @ replicate (n - length xs) 0"

definition compare_release :: "nat list \<Rightarrow> nat list \<Rightarrow> cmp" where
  \<comment> \<open>Modelled from the spec: release segments are compared after padding the shorter
      sequence with zeros\<close>
  "compare_release a b =
     (let n = max (length a) (length b) in lex_cmp (pad n a) (pad n b))"

fun compare_qualifier :: "(string \<times> nat) option \<Rightarrow> (string \<times> nat) option \<Rightarrow> cmp" where
  \<comment> \<open>Modelled from the spec: no qualifier is greater than a qualifier; two qualifiers
      compare lexicographically as (alphabetic-tag, numeric-suffix) pairs\<close>
  "compare_qualifier None None = Equal"
| "compare_qualifier None (Some q) = Greater"
| "compare_qualifier (Some p) None = Less"
| "compare_qualifier (Some (t1, n1)) (Some (t2, n2)) =
     (case lex_cmp (map of_char t1) (map of_char t2) of
        Equal \<Rightarrow> lex_cmp [n1] [n2]
      | r \<Rightarrow> r)"

definition compare_versions :: "version \<Rightarrow> version \<Rightarrow> cmp" where
  \<comment> \<open>Modelled from the spec: the comparison algorithm of section 4.1\<close>
  "compare_versions a b =
     (case compare_release (release a) (release b) of
        Equal \<Rightarrow> compare_qualifier (qualifier a) (qualifier b)
      | r \<Rightarrow> r)"

definition version_lt :: "version \<Rightarrow> version \<Rightarrow> bool" where
  \<comment> \<open>Modelled from the spec: \<open>a < b\<close>\<close>
  "version_lt a b = (compare_versions a b = Less)"

definition version_eq :: "version \<Rightarrow> version \<Rightarrow> bool" where
  \<comment> \<open>Modelled from the spec: \<open>a == b\<close>\<close>
  "version_eq a b = (compare_versions a b = Equal)"

definition version_gt :: "version \<Rightarrow> version \<Rightarrow> bool" where
  \<comment> \<open>Modelled from the spec: \<open>a > b\<close>\<close>
  "version_gt a b = (compare_versions a b = Greater)"

definition parsed_lt :: "string \<Rightarrow> string \<Rightarrow> bool" where
  \<comment> \<open>Modelled from the spec: \<open>parse(s) < parse(t)\<close> for two strings that both parse\<close>
  "parsed_lt s t =
     (case version_parse s of
        None \<Rightarrow> False
      | Some a \<Rightarrow> (case version_parse t of None \<Rightarrow> False | Some b \<Rightarrow> version_lt a b))"

definition parsed_eq :: "string \<Rightarrow> string \<Rightarrow> bool" where
  \<comment> \<open>Modelled from the spec: \<open>parse(s) == parse(t)\<close> for two strings that both parse\<close>
  "parsed_eq s t =
     (case version_parse s of
        None \<Rightarrow> False
      | Some a \<Rightarrow> (case version_parse t of None \<Rightarrow> False | Some b \<Rightarrow> version_eq a b))"


section \<open>Example subprocess behaviours\<close>

text \<open>
  Three behaviours of \<open>subprocess.run\<close> used in the examples below: one prints the same
  standard output for every package, one exits with a non-zero status for one
  package and prints the given output for the others, and one raises the given
  exception for every package.
\<close>

definition pip_prints :: "string \<Rightarrow> string \<Rightarrow> string \<Rightarrow> exn + string" where
  "pip_prints out package_name pypi_url = Inr out"

definition pip_raises :: "exn \<Rightarrow> string \<Rightarrow> string \<Rightarrow> exn + string" where
  "pip_raises e package_name pypi_url = Inl e"

definition pip_fails_for :: "string \<Rightarrow> string \<Rightarrow> string \<Rightarrow> string \<Rightarrow> exn + string" where
  "pip_fails_for bad out package_name pypi_url =
     (if package_name = bad then Inl CalledProcessError else Inr out)"

definition all_installed :: args where
  \<comment> \<open>the command line without options\<close>
  "all_installed = \<lparr>arg_package = None, arg_pypi_url = ''https://pypi.org/pypi/'',
     arg_verbose = False\<rparr>"

definition single_package :: "string \<Rightarrow> args" where
  \<comment> \<open>the command line \<open>-p name\<close>\<close>
  "single_package name = \<lparr>arg_package = Some name, arg_pypi_url = ''https://pypi.org/pypi/'',
     arg_verbose = False\<rparr>"


section \<open>The scan: one outcome for every target\<close>

lemma is_confused_pair: "is_confused (n, oc) = (oc = Confused)"
  by (simp add: is_confused_def)

lemma handler_not_Confused: "handler e \<noteq> Confused"
  by (cases e) simp_all

lemma loop_body_outcomes:
  "outcomes (loop_body parse gt run url st n iv) =
     outcomes st @ [(n, package_outcome parse gt run url n iv)]"
  by (simp add: package_outcome_def loop_body_def logged_def
      split: sum.splits option.splits prod.splits)

lemma loop_body_vulnerable:
  "map v_package (vulnerable_packages (loop_body parse gt run url st n iv)) =
     map v_package (vulnerable_packages st) @
       (if package_outcome parse gt run url n iv = Confused then [n] else [])"
  by (simp add: package_outcome_def loop_body_def logged_def handler_not_Confused
      split: sum.splits option.splits prod.splits)

lemma scan_outcomes:
  "outcomes (scan parse gt run url st targets) =
     outcomes st @ map (\<lambda>(n, iv). (n, package_outcome parse gt run url n iv)) targets"
  by (induction targets arbitrary: st) (auto simp add: loop_body_outcomes)

lemma scan_vulnerable:
  "map v_package (vulnerable_packages st) = map fst (filter is_confused (outcomes st)) \<Longrightarrow>
   map v_package (vulnerable_packages (scan parse gt run url st targets)) =
     map fst (filter is_confused (outcomes (scan parse gt run url st targets)))"
proof (induction targets arbitrary: st)
  case Nil
  then show ?case by simp
next
  case (Cons t targets)
  obtain n iv where t: "t = (n, iv)" by (cases t)
  let ?st = "loop_body parse gt run url st n iv"
  have "map v_package (vulnerable_packages ?st) = map fst (filter is_confused (outcomes ?st))"
    using Cons.prems
    by (cases "package_outcome parse gt run url n iv = Confused")
       (simp_all add: loop_body_outcomes loop_body_vulnerable is_confused_pair)
  then show ?case using Cons.IH [of ?st] by (simp add: t)
qed

lemma main_report:
  "report (main parse gt run ws a) =
     map (\<lambda>(n, iv). (n, package_outcome parse gt run (arg_pypi_url a) n iv))
       (packages_to_check ws a)"
  by (simp add: main_def Let_def scan_outcomes)

lemma main_vulnerable:
  "map v_package (vulnerable (main parse gt run ws a)) =
     map fst (filter is_confused (report (main parse gt run ws a)))"
proof (cases "packages_to_check ws a = []")
  case True
  then show ?thesis by (simp add: main_def)
next
  case False
  let ?init = "\<lparr>vulnerable_packages = [], outcomes = []\<rparr>"
  have "map v_package (vulnerable_packages ?init) = map fst (filter is_confused (outcomes ?init))"
    by simp
  from scan_vulnerable [OF this, of parse gt run "arg_pypi_url a" "packages_to_check ws a"]
  show ?thesis using False by (auto simp add: main_def Let_def)
qed

lemma main_exit_code:
  "exit_code (main parse gt run ws a) = (if vulnerable (main parse gt run ws a) = [] then 0 else 1)"
  by (simp add: main_def Let_def)

lemma vulnerable_iff_confused:
  "vulnerable (main parse gt run ws a) = [] \<longleftrightarrow>
     filter is_confused (report (main parse gt run ws a)) = []"
  using main_vulnerable [of parse gt run ws a]
  by (metis map_is_Nil_conv)

lemma report_nth:
  assumes "i < length (packages_to_check ws a)" and "packages_to_check ws a ! i = (n, iv)"
  shows "report (main parse gt run ws a) ! i =
           (n, package_outcome parse gt run (arg_pypi_url a) n iv)"
  using assms by (simp add: main_report)

lemma package_outcome_cases:
  "package_outcome parse gt run url n iv =
     (case check_package_availability run n url of
        Inl e \<Rightarrow> handler e
      | Inr None \<Rightarrow> NotOnRegistry
      | Inr (Some r) \<Rightarrow>
          (case parse_installed parse iv of
             Inl e \<Rightarrow> handler e
           | Inr obj \<Rightarrow>
               (case parse r of
                  None \<Rightarrow> ErrorOccurred InvalidVersion
                | Some rv \<Rightarrow>
                    (case obj of
                       None \<Rightarrow> UpToDate
                     | Some (s, v) \<Rightarrow> if gt v rv then Confused else UpToDate))))"
  by (simp add: package_outcome_def loop_body_def logged_def
      split: sum.splits option.splits prod.splits)


section \<open>Claims about the scan\<close>

text \<open>
  C3. For every completed scan the exit status is 0 when the report holds no \<open>Confused\<close>
  outcome and 1 when it holds at least one, whatever the other entries of the report
  are.
\<close>

theorem exit_status_by_confused:
  "exit_code (main parse gt run ws a) =
     (if filter is_confused (report (main parse gt run ws a)) = [] then 0 else 1)"
  by (simp add: main_exit_code vulnerable_iff_confused)

text \<open>
  C6. When the target set is empty the scan ends at once: the report has no entry,
  \<open>hasVulnerabilities\<close> is false and the exit status is 0.
\<close>

theorem empty_target_set:
  "packages_to_check ws a = [] \<Longrightarrow>
     report (main parse gt run ws a) = [] \<and>
     \<not> hasVulnerabilities (main parse gt run ws a) \<and>
     exit_code (main parse gt run ws a) = 0"
  by (simp add: main_def hasVulnerabilities_def)

theorem empty_target_set_witness:
  "packages_to_check (Inr []) all_installed = [] \<and>
   report (main version_parse version_gt (pip_prints ''Latest version: 1.0.0'') (Inr []) all_installed) = [] \<and>
   \<not> hasVulnerabilities (main version_parse version_gt (pip_prints ''Latest version: 1.0.0'') (Inr []) all_installed) \<and>
   exit_code (main version_parse version_gt (pip_prints ''Latest version: 1.0.0'') (Inr []) all_installed) = 0"
proof -
  have h: "packages_to_check (Inr []) all_installed = []"
    by (simp add: packages_to_check_def all_installed_def get_installed_packages_def)
  from empty_target_set [OF h] show ?thesis using h by simp
qed

text \<open>
  C4. A package for which the lookup reports "not present" (\<open>None\<close>) has the outcome
  \<open>NotOnRegistry\<close>, whatever its local version is, also when the local version does
  not parse: the test of line 134 comes before any parsing.
\<close>

theorem not_on_registry_priority:
  assumes "i < length (packages_to_check ws a)"
    and "packages_to_check ws a ! i = (n, iv)"
    and "check_package_availability run n (arg_pypi_url a) = Inr None"
  shows "report (main parse gt run ws a) ! i = (n, NotOnRegistry)"
  using assms by (simp add: report_nth package_outcome_cases)

theorem not_on_registry_priority_witness:
  "0 < length (packages_to_check (Inr [(''internal-lib'', ''not-a-version'')]) all_installed) \<and>
   packages_to_check (Inr [(''internal-lib'', ''not-a-version'')]) all_installed ! 0 =
     (''internal-lib'', Some ''not-a-version'') \<and>
   check_package_availability (pip_prints []) ''internal-lib'' (arg_pypi_url all_installed) = Inr None \<and>
   version_parse ''not-a-version'' = None \<and>
   report (main version_parse version_gt (pip_prints [])
     (Inr [(''internal-lib'', ''not-a-version'')]) all_installed) ! 0 = (''internal-lib'', NotOnRegistry)"
proof -
  have h1: "0 < length (packages_to_check (Inr [(''internal-lib'', ''not-a-version'')]) all_installed)"
    by (simp add: packages_to_check_def all_installed_def get_installed_packages_def)
  have h2: "packages_to_check (Inr [(''internal-lib'', ''not-a-version'')]) all_installed ! 0 =
     (''internal-lib'', Some ''not-a-version'')"
    by (simp add: packages_to_check_def all_installed_def get_installed_packages_def)
  have h3: "check_package_availability (pip_prints []) ''internal-lib'' (arg_pypi_url all_installed) = Inr None"
    by (simp add: check_package_availability_def pip_prints_def)
  have h4: "version_parse ''not-a-version'' = None"
    by code_simp
  from not_on_registry_priority [OF h1 h2 h3] show ?thesis using h1 h2 h3 h4 by simp
qed

text \<open>
  C5, as stated, fails: a lookup error does not always record \<open>LookupFailed\<close>. The
  loop has two handlers. A lookup that raises anything other than a
  \<open>CalledProcessError\<close> (here \<open>OtherException\<close>, an \<open>OSError\<close> of the subprocess call or
  a decoding error) is logged by the handler of line 157, the one that also logs a
  version that does not parse, and not by the handler of line 155.
\<close>

theorem lookup_error_not_LookupFailed:
  "check_package_availability (pip_raises OtherException) ''bar''
     (arg_pypi_url all_installed) = Inl OtherException \<and>
   report (main version_parse version_gt (pip_raises OtherException)
     (Inr [(''bar'', ''1.0.0'')]) all_installed) = [(''bar'', ErrorOccurred OtherException)] \<and>
   ErrorOccurred OtherException \<noteq> LookupFailed"
proof -
  have t: "packages_to_check (Inr [(''bar'', ''1.0.0'')]) all_installed =
      [(''bar'', Some ''1.0.0'')]"
    by (simp add: packages_to_check_def all_installed_def get_installed_packages_def)
  have l: "check_package_availability (pip_raises OtherException) n u = Inl OtherException"
    for n u
    by (simp add: check_package_availability_def pip_raises_def)
  show ?thesis
    by (simp add: main_report t l package_outcome_cases)
qed

text \<open>
  C5, amended. A lookup that raises for one package gives that package an error
  outcome: \<open>LookupFailed\<close> when the exception is a \<open>CalledProcessError\<close> (a non-zero
  exit status of the command), and the outcome of the general handler, which logs
  the exception, for any other one. In both cases the scan goes on: the report has
  one entry for every target, in order, and the entry of every target is the outcome
  of that target alone. The scan is a total function, so it always produces the
  report.
\<close>

theorem scan_continues:
  assumes "i < length (packages_to_check ws a)"
    and "packages_to_check ws a ! i = (n, iv)"
    and "check_package_availability run n (arg_pypi_url a) = Inl e"
  shows "length (report (main parse gt run ws a)) = length (packages_to_check ws a) \<and>
         report (main parse gt run ws a) ! i =
           (n, if e = CalledProcessError then LookupFailed else ErrorOccurred e) \<and>
         (\<forall>j < length (packages_to_check ws a).
            report (main parse gt run ws a) ! j =
              (fst (packages_to_check ws a ! j),
               package_outcome parse gt run (arg_pypi_url a)
                 (fst (packages_to_check ws a ! j)) (snd (packages_to_check ws a ! j))))"
proof -
  have "handler e = (if e = CalledProcessError then LookupFailed else ErrorOccurred e)"
    by (cases e) simp_all
  then have "report (main parse gt run ws a) ! i =
      (n, if e = CalledProcessError then LookupFailed else ErrorOccurred e)"
    using assms by (simp add: report_nth package_outcome_cases)
  moreover have "length (report (main parse gt run ws a)) = length (packages_to_check ws a)"
    by (simp add: main_report)
  moreover have "\<forall>j < length (packages_to_check ws a).
      report (main parse gt run ws a) ! j =
        (fst (packages_to_check ws a ! j),
         package_outcome parse gt run (arg_pypi_url a)
           (fst (packages_to_check ws a ! j)) (snd (packages_to_check ws a ! j)))"
    by (simp add: main_report case_prod_beta)
  ultimately show ?thesis by blast
qed

theorem scan_continues_witness:
  "0 < length (packages_to_check (Inr [(''bar'', ''1.0.0''), (''foo'', ''2.0.0'')]) all_installed) \<and>
   packages_to_check (Inr [(''bar'', ''1.0.0''), (''foo'', ''2.0.0'')]) all_installed ! 0 =
     (''bar'', Some ''1.0.0'') \<and>
   check_package_availability (pip_fails_for ''bar'' ''Latest version: 1.5.0'') ''bar''
     (arg_pypi_url all_installed) = Inl CalledProcessError \<and>
   length (report (main version_parse version_gt (pip_fails_for ''bar'' ''Latest version: 1.5.0'')
     (Inr [(''bar'', ''1.0.0''), (''foo'', ''2.0.0'')]) all_installed)) = 2 \<and>
   report (main version_parse version_gt (pip_fails_for ''bar'' ''Latest version: 1.5.0'')
     (Inr [(''bar'', ''1.0.0''), (''foo'', ''2.0.0'')]) all_installed) ! 0 = (''bar'', LookupFailed) \<and>
   report (main version_parse version_gt (pip_fails_for ''bar'' ''Latest version: 1.5.0'')
     (Inr [(''bar'', ''1.0.0''), (''foo'', ''2.0.0'')]) all_installed) ! 1 = (''foo'', Confused)"
proof -
  let ?ws = "Inr [(''bar'', ''1.0.0''), (''foo'', ''2.0.0'')] :: exn + (string \<times> string) list"
  let ?run = "pip_fails_for ''bar'' ''Latest version: 1.5.0''"
  have t: "packages_to_check ?ws all_installed = [(''bar'', Some ''1.0.0''), (''foo'', Some ''2.0.0'')]"
    by (simp add: packages_to_check_def all_installed_def get_installed_packages_def)
  have h1: "0 < length (packages_to_check ?ws all_installed)"
    by (simp add: t)
  have h2: "packages_to_check ?ws all_installed ! 0 = (''bar'', Some ''1.0.0'')"
    by (simp add: t)
  have h3: "check_package_availability ?run ''bar'' (arg_pypi_url all_installed) = Inl CalledProcessError"
    by (simp add: check_package_availability_def pip_fails_for_def)
  have foo: "package_outcome version_parse version_gt ?run (arg_pypi_url all_installed)
      ''foo'' (Some ''2.0.0'') = Confused"
    by code_simp
  note c = scan_continues [OF h1 h2 h3, of version_parse version_gt]
  from c have "report (main version_parse version_gt ?run ?ws all_installed) ! 1 = (''foo'', Confused)"
    by (simp add: t foo)
  with c show ?thesis using h1 h2 h3 by (simp add: t)
qed

text \<open>
  C10. In single-package mode (\<open>-p name\<close> with a non-empty name) the only target has no
  local version; for every lookup behaviour nothing is added to the vulnerable list,
  no outcome is \<open>Confused\<close> and the exit status is 0.
\<close>

theorem single_package_never_confused:
  assumes "arg_package a = Some p" and "p \<noteq> []"
  shows "packages_to_check ws a = [(p, None)] \<and>
         vulnerable (main parse gt run ws a) = [] \<and>
         (\<forall>entry \<in> set (report (main parse gt run ws a)). snd entry \<noteq> Confused) \<and>
         exit_code (main parse gt run ws a) = 0"
proof -
  have t: "packages_to_check ws a = [(p, None)]"
    using assms by (simp add: packages_to_check_def)
  have "package_outcome parse gt run (arg_pypi_url a) p None \<noteq> Confused"
    by (simp add: package_outcome_cases parse_installed_def handler_not_Confused
        split: sum.splits option.splits)
  then have r: "\<forall>entry \<in> set (report (main parse gt run ws a)). snd entry \<noteq> Confused"
    by (simp add: main_report t)
  then have "filter is_confused (report (main parse gt run ws a)) = []"
    by (simp add: filter_empty_conv is_confused_def)
  then have v: "vulnerable (main parse gt run ws a) = []"
    by (simp add: vulnerable_iff_confused)
  then have "exit_code (main parse gt run ws a) = 0"
    by (simp add: main_exit_code)
  with t r v show ?thesis by blast
qed

theorem single_package_never_confused_witness:
  "arg_package (single_package ''foo'') = Some ''foo'' \<and> ''foo'' \<noteq> [] \<and>
   packages_to_check (Inr [(''foo'', ''2.0.0'')]) (single_package ''foo'') = [(''foo'', None)] \<and>
   vulnerable (main version_parse version_gt (pip_prints ''Latest version: 1.5.0'')
     (Inr [(''foo'', ''2.0.0'')]) (single_package ''foo'')) = [] \<and>
   exit_code (main version_parse version_gt (pip_prints ''Latest version: 1.5.0'')
     (Inr [(''foo'', ''2.0.0'')]) (single_package ''foo'')) = 0"
proof -
  have h1: "arg_package (single_package ''foo'') = Some ''foo''"
    by (simp add: single_package_def)
  have h2: "''foo'' \<noteq> []" by simp
  from single_package_never_confused [OF h1 h2,
      where ws = "Inr [(''foo'', ''2.0.0'')]" and parse = version_parse and gt = version_gt
        and run = "pip_prints ''Latest version: 1.5.0''"]
  show ?thesis using h1 by simp
qed

text \<open>
  C1. For a package whose lookup gives a version string that parses and whose local
  version is present and parses, the outcome is \<open>Confused\<close> if the local version is
  greater than the registry version and \<open>UpToDate\<close> otherwise; and
  \<open>hasVulnerabilities\<close> holds exactly when some outcome of the report is \<open>Confused\<close>.
  The first hypothesis is a fact about \<open>version.parse\<close>: the empty string does not
  parse.
\<close>

theorem confused_iff_local_newer:
  assumes "parse [] = None"
    and "i < length (packages_to_check ws a)"
    and "packages_to_check ws a ! i = (n, Some l)"
    and "check_package_availability run n (arg_pypi_url a) = Inr (Some r)"
    and "parse l = Some lv"
    and "parse r = Some rv"
  shows "report (main parse gt run ws a) ! i = (n, if gt lv rv then Confused else UpToDate) \<and>
         (hasVulnerabilities (main parse gt run ws a) \<longleftrightarrow>
            Confused \<in> snd ` set (report (main parse gt run ws a)))"
proof -
  from assms(1,5) have "l \<noteq> []" by auto
  then have "parse_installed parse (Some l) = Inr (Some (l, lv))"
    using assms(5) by (simp add: parse_installed_def)
  then have "package_outcome parse gt run (arg_pypi_url a) n (Some l) =
      (if gt lv rv then Confused else UpToDate)"
    using assms(4,6) by (simp add: package_outcome_cases)
  then have "report (main parse gt run ws a) ! i = (n, if gt lv rv then Confused else UpToDate)"
    using assms(2,3) by (simp add: report_nth)
  moreover have "filter is_confused xs = [] \<longleftrightarrow> Confused \<notin> snd ` set xs" for xs
    by (induction xs) (auto simp add: is_confused_def)
  then have "hasVulnerabilities (main parse gt run ws a) \<longleftrightarrow>
      Confused \<in> snd ` set (report (main parse gt run ws a))"
    by (simp add: hasVulnerabilities_def vulnerable_iff_confused)
  ultimately show ?thesis by blast
qed

theorem confused_iff_local_newer_witness:
  "version_parse [] = None \<and>
   0 < length (packages_to_check (Inr [(''foo'', ''2.0.0'')]) all_installed) \<and>
   packages_to_check (Inr [(''foo'', ''2.0.0'')]) all_installed ! 0 = (''foo'', Some ''2.0.0'') \<and>
   check_package_availability (pip_prints ''Latest version: 1.5.0'') ''foo''
     (arg_pypi_url all_installed) = Inr (Some ''1.5.0'') \<and>
   version_parse ''2.0.0'' = Some \<lparr>release = [2, 0, 0], qualifier = None\<rparr> \<and>
   version_parse ''1.5.0'' = Some \<lparr>release = [1, 5, 0], qualifier = None\<rparr> \<and>
   version_gt \<lparr>release = [2, 0, 0], qualifier = None\<rparr> \<lparr>release = [1, 5, 0], qualifier = None\<rparr> \<and>
   report (main version_parse version_gt (pip_prints ''Latest version: 1.5.0'')
     (Inr [(''foo'', ''2.0.0'')]) all_installed) ! 0 = (''foo'', Confused) \<and>
   hasVulnerabilities (main version_parse version_gt (pip_prints ''Latest version: 1.5.0'')
     (Inr [(''foo'', ''2.0.0'')]) all_installed)"
proof -
  let ?ws = "Inr [(''foo'', ''2.0.0'')] :: exn + (string \<times> string) list"
  let ?run = "pip_prints ''Latest version: 1.5.0''"
  let ?res = "main version_parse version_gt ?run ?ws all_installed"
  have h0: "version_parse [] = None" by code_simp
  have t: "packages_to_check ?ws all_installed = [(''foo'', Some ''2.0.0'')]"
    by (simp add: packages_to_check_def all_installed_def get_installed_packages_def)
  have h1: "0 < length (packages_to_check ?ws all_installed)" by (simp add: t)
  have h2: "packages_to_check ?ws all_installed ! 0 = (''foo'', Some ''2.0.0'')" by (simp add: t)
  have h3: "check_package_availability ?run ''foo'' (arg_pypi_url all_installed) = Inr (Some ''1.5.0'')"
    by code_simp
  have h4: "version_parse ''2.0.0'' = Some \<lparr>release = [2, 0, 0], qualifier = None\<rparr>" by code_simp
  have h5: "version_parse ''1.5.0'' = Some \<lparr>release = [1, 5, 0], qualifier = None\<rparr>" by code_simp
  have g: "version_gt \<lparr>release = [2, 0, 0], qualifier = None\<rparr> \<lparr>release = [1, 5, 0], qualifier = None\<rparr>"
    by code_simp
  note c = confused_iff_local_newer [OF h0 h1 h2 h3 h4 h5, of version_gt]
  from c g have r: "report ?res ! 0 = (''foo'', Confused)" by simp
  have "length (report ?res) = 1" by (simp add: main_report t)
  with r have "Confused \<in> snd ` set (report ?res)"
    by (metis image_eqI nth_mem snd_conv zero_less_one)
  with c have "hasVulnerabilities ?res" by simp
  with r show ?thesis using h0 h1 h2 h3 h4 h5 g by simp
qed

text \<open>
  C2, as stated, fails: a package present on the registry whose local version is
  unknown is not given the outcome Unparseable. Line 138 keeps \<open>None\<close> for an unknown
  local version and the guard of line 141 then skips the comparison, so that the
  package is logged as up to date (line 152) when its registry version parses. Here
  the package is named on the command line, which makes its local version unknown.
\<close>

theorem unknown_local_is_up_to_date:
  "packages_to_check (Inr []) (single_package ''foo'') = [(''foo'', None)] \<and>
   check_package_availability (pip_prints ''Latest version: 1.0.0'') ''foo''
     (arg_pypi_url (single_package ''foo'')) = Inr (Some ''1.0.0'') \<and>
   report (main version_parse version_gt (pip_prints ''Latest version: 1.0.0'') (Inr [])
     (single_package ''foo'')) = [(''foo'', UpToDate)] \<and>
   UpToDate \<noteq> ErrorOccurred InvalidVersion"
proof -
  have t: "packages_to_check (Inr []) (single_package ''foo'') = [(''foo'', None)]"
    by (simp add: packages_to_check_def single_package_def)
  have "scan_lines (splitlines ''Latest version: 1.0.0'') = Some ''1.0.0''" by code_simp
  then have l: "check_package_availability (pip_prints ''Latest version: 1.0.0'') n u =
      Inr (Some ''1.0.0'')" for n u
    by (simp add: check_package_availability_def pip_prints_def)
  have p: "version_parse ''1.0.0'' \<noteq> None" by code_simp
  then obtain v where v: "version_parse ''1.0.0'' = Some v" by blast
  show ?thesis
    by (simp add: main_report t l package_outcome_cases parse_installed_def v)
qed

text \<open>
  C2, amended. For a package present on the registry, the outcome is Unparseable, the
  error \<open>InvalidVersion\<close> logged by the handler of line 157, exactly when the local
  version string is known (not \<open>None\<close>, not empty) and fails to parse, or the registry
  version string fails to parse; such a package is then never logged as up to date.
  When the local version is unknown and the registry version parses, the outcome is
  \<open>UpToDate\<close>.
\<close>

theorem unparseable_outcome:
  assumes "i < length (packages_to_check ws a)"
    and "packages_to_check ws a ! i = (n, iv)"
    and "check_package_availability run n (arg_pypi_url a) = Inr (Some r)"
  shows "(report (main parse gt run ws a) ! i = (n, ErrorOccurred InvalidVersion) \<longleftrightarrow>
            (\<exists>l. iv = Some l \<and> l \<noteq> [] \<and> parse l = None) \<or> parse r = None) \<and>
         ((iv = None \<or> iv = Some []) \<and> parse r \<noteq> None \<longrightarrow>
            report (main parse gt run ws a) ! i = (n, UpToDate))"
proof -
  have "report (main parse gt run ws a) ! i =
      (n, package_outcome parse gt run (arg_pypi_url a) n iv)"
    using assms(1,2) by (rule report_nth)
  then show ?thesis
    using assms(3)
    by (auto simp add: package_outcome_cases parse_installed_def
        split: option.splits if_splits)
qed

theorem unparseable_outcome_witness:
  "report (main version_parse version_gt (pip_prints ''Latest version: 1.0.0'')
     (Inr [(''foo'', ''not-a-version'')]) all_installed) ! 0 =
       (''foo'', ErrorOccurred InvalidVersion) \<and>
   report (main version_parse version_gt (pip_prints ''Latest version: 1.0.0'')
     (Inr [(''bar'', [])]) all_installed) ! 0 = (''bar'', UpToDate)"
proof -
  let ?run = "pip_prints ''Latest version: 1.0.0''"
  have l: "check_package_availability ?run n (arg_pypi_url all_installed) = Inr (Some ''1.0.0'')"
    for n
  proof -
    have "scan_lines (splitlines ''Latest version: 1.0.0'') = Some ''1.0.0''" by code_simp
    then show ?thesis by (simp add: check_package_availability_def pip_prints_def)
  qed
  have t1: "packages_to_check (Inr [(''foo'', ''not-a-version'')]) all_installed =
      [(''foo'', Some ''not-a-version'')]"
    by (simp add: packages_to_check_def all_installed_def get_installed_packages_def)
  have t2: "packages_to_check (Inr [(''bar'', [])]) all_installed = [(''bar'', Some [])]"
    by (simp add: packages_to_check_def all_installed_def get_installed_packages_def)
  have a1: "0 < length (packages_to_check (Inr [(''foo'', ''not-a-version'')]) all_installed)"
    and b1: "packages_to_check (Inr [(''foo'', ''not-a-version'')]) all_installed ! 0 =
      (''foo'', Some ''not-a-version'')"
    by (simp_all add: t1)
  have a2: "0 < length (packages_to_check (Inr [(''bar'', [])]) all_installed)"
    and b2: "packages_to_check (Inr [(''bar'', [])]) all_installed ! 0 = (''bar'', Some [])"
    by (simp_all add: t2)
  have p1: "version_parse ''not-a-version'' = None" by code_simp
  have p2: "version_parse ''1.0.0'' \<noteq> None" by code_simp
  from unparseable_outcome [OF a1 b1 l, where parse = version_parse and gt = version_gt]
  have c1: "report (main version_parse version_gt ?run
     (Inr [(''foo'', ''not-a-version'')]) all_installed) ! 0 =
       (''foo'', ErrorOccurred InvalidVersion)"
    using p1 by simp
  from unparseable_outcome [OF a2 b2 l, where parse = version_parse and gt = version_gt]
  have c2: "report (main version_parse version_gt ?run
     (Inr [(''bar'', [])]) all_installed) ! 0 = (''bar'', UpToDate)"
    using p2 by simp
  from c1 c2 show ?thesis by simp
qed


section \<open>The results of the registry lookup\<close>

lemma split_from_length:
  "length (split_from sep cur s) = Suc (length (filter (\<lambda>c. c = sep) s))"
  by (induction s arbitrary: cur) simp_all

lemma split_str_parts: "Suc 0 < length (split_str l sep) \<longleftrightarrow> sep \<in> set l"
proof -
  have "Suc 0 < length (split_str l sep) \<longleftrightarrow> filter (\<lambda>c. c = sep) l \<noteq> []"
    by (simp add: split_str_def split_from_length)
  also have "\<dots> \<longleftrightarrow> sep \<in> set l"
    by (simp add: filter_empty_conv)
  finally show ?thesis .
qed


lemma scan_lines_None_iff:
  "scan_lines ls = None \<longleftrightarrow>
     (\<forall>l \<in> set ls. \<not> (contains l ''Latest version'' \<and> CHR '':'' \<in> set l))"
proof (induction ls)
  case Nil
  show ?case by simp
next
  case (Cons a ls)
  show ?case
  proof (cases "contains a ''Latest version'' \<and> CHR '':'' \<in> set a")
    case True
    then have "scan_lines (a # ls) \<noteq> None"
      by (simp add: Let_def split_str_parts del: contains.simps)
    with True show ?thesis by (simp del: contains.simps scan_lines.simps)
  next
    case False
    then have "scan_lines (a # ls) = scan_lines ls"
      by (auto simp add: Let_def split_str_parts simp del: contains.simps)
    with False Cons.IH show ?thesis by (simp del: contains.simps scan_lines.simps)
  qed
qed


lemma scan_lines_Some_iff:
  "scan_lines ls = Some v \<longleftrightarrow>
     (\<exists>pre l post. ls = pre @ l # post \<and>
        (\<forall>p \<in> set pre. \<not> (contains p ''Latest version'' \<and> CHR '':'' \<in> set p)) \<and>
        contains l ''Latest version'' \<and> CHR '':'' \<in> set l \<and>
        v = strip (split_str l (CHR '':'') ! 1))"
  (is "?L ls \<longleftrightarrow> ?R ls")
proof (induction ls)
  case Nil
  show ?case by simp
next
  case (Cons a ls)
  let ?good = "\<lambda>l. contains l ''Latest version'' \<and> CHR '':'' \<in> set l"
  show ?case
  proof (cases "?good a")
    case True
    then have s: "scan_lines (a # ls) = Some (strip (split_str a (CHR '':'') ! 1))"
      by (simp add: Let_def split_str_parts del: contains.simps)
    show ?thesis
    proof
      assume "?L (a # ls)"
      with s have v: "v = strip (split_str a (CHR '':'') ! 1)" by simp
      have "a # ls = [] @ a # ls" by simp
      with True v show "?R (a # ls)" by (metis empty_iff list.set(1))
    next
      assume "?R (a # ls)"
      then obtain pre l post where d: "a # ls = pre @ l # post"
        and n: "\<forall>p \<in> set pre. \<not> ?good p" and v: "v = strip (split_str l (CHR '':'') ! 1)"
        by blast
      have "pre = []"
      proof (cases pre)
        case Nil
        then show ?thesis .
      next
        case (Cons b pre')
        with d have "a \<in> set pre" by simp
        with n True show ?thesis by blast
      qed
      with d have "l = a" by simp
      with s v show "?L (a # ls)" by simp
    qed
  next
    case False
    then have s: "scan_lines (a # ls) = scan_lines ls"
      by (auto simp add: Let_def split_str_parts simp del: contains.simps)
    show ?thesis
    proof
      assume "?L (a # ls)"
      with s Cons.IH have "?R ls" by simp
      then obtain pre l post where d: "ls = pre @ l # post"
        and n: "\<forall>p \<in> set pre. \<not> ?good p" and g: "?good l"
        and v: "v = strip (split_str l (CHR '':'') ! 1)"
        by blast
      from d have "a # ls = (a # pre) @ l # post" by simp
      moreover from n False have "\<forall>p \<in> set (a # pre). \<not> ?good p" by simp
      ultimately show "?R (a # ls)" using g v by blast
    next
      assume "?R (a # ls)"
      then obtain pre l post where d: "a # ls = pre @ l # post"
        and n: "\<forall>p \<in> set pre. \<not> ?good p" and g: "?good l"
        and v: "v = strip (split_str l (CHR '':'') ! 1)"
        by blast
      from d g False obtain pre' where p: "pre = a # pre'"
        by (cases pre) auto
      with d have "ls = pre' @ l # post" by simp
      moreover from n p have "\<forall>p \<in> set pre'. \<not> ?good p" by simp
      ultimately have "?R ls" using g v by blast
      with s Cons.IH show "?L (a # ls)" by simp
    qed
  qed
qed


lemma splitlines_Nil: "splitlines [] = []"
  by (simp add: splitlines_def)

text \<open>
  C9, as stated, fails: an output of the command from which no version line can be
  read is not reported as a lookup error. The function returns \<open>None\<close> for it
  (line 80), the value it also returns for an empty output (line 83): an HTML error
  page and the empty output give the same result.
\<close>

theorem malformed_response_is_not_present:
  "check_package_availability (pip_prints ''<html>502 Bad Gateway</html>'')
     ''foo'' ''https://pypi.org/pypi/'' = Inr None \<and>
   check_package_availability (pip_prints []) ''foo'' ''https://pypi.org/pypi/'' = Inr None \<and>
   ''<html>502 Bad Gateway</html>'' \<noteq> []"
proof -
  have "scan_lines (splitlines ''<html>502 Bad Gateway</html>'') = None"
    by code_simp
  then show ?thesis
    by (simp add: check_package_availability_def pip_prints_def)
qed

text \<open>
  C9, amended. The lookup gives one of three results, an exception, \<open>None\<close> or a
  version string. It raises exactly when the command raises, and raises the same
  exception. When the command prints \<open>out\<close>, the lookup returns \<open>None\<close> exactly when no
  line of \<open>out\<close> contains both \<open>Latest version\<close> and a colon, which is the case of an
  empty output and of a malformed one alike; and it returns the string \<open>v\<close> exactly when
  \<open>v\<close> is what follows the first colon, up to the next one and stripped, in the first
  line that contains both.
\<close>

theorem lookup_results:
  "(check_package_availability run n u = Inl e \<longleftrightarrow> run n u = Inl e) \<and>
   (run n u = Inr out \<longrightarrow>
      (check_package_availability run n u = Inr None \<longleftrightarrow>
         (\<forall>l \<in> set (splitlines out).
            \<not> (contains l ''Latest version'' \<and> CHR '':'' \<in> set l))) \<and>
      (check_package_availability run n u = Inr (Some v) \<longleftrightarrow>
         (\<exists>pre l post. splitlines out = pre @ l # post \<and>
            (\<forall>p \<in> set pre. \<not> (contains p ''Latest version'' \<and> CHR '':'' \<in> set p)) \<and>
            contains l ''Latest version'' \<and> CHR '':'' \<in> set l \<and>
            v = strip (split_str l (CHR '':'') ! 1))))"
proof -
  have 1: "check_package_availability run n u = Inl e \<longleftrightarrow> run n u = Inl e"
    by (simp add: check_package_availability_def split: sum.splits)
  have 2: "check_package_availability run n u = Inr (scan_lines (splitlines out))"
    if "run n u = Inr out"
    using that by (cases "out = []") (simp_all add: check_package_availability_def splitlines_Nil)
  show ?thesis
    using 1 2 scan_lines_None_iff [of "splitlines out"] scan_lines_Some_iff [of "splitlines out" v]
    by (simp del: scan_lines.simps contains.simps)
qed

theorem lookup_results_witness:
  "check_package_availability (pip_prints ''WARNING: pip index is currently an experimental command.'')
     ''foo'' ''https://pypi.org/pypi/'' = Inr None"
proof -
  let ?out = "''WARNING: pip index is currently an experimental command.''"
  have h1: "pip_prints ?out ''foo'' ''https://pypi.org/pypi/'' = Inr ?out"
    by (simp add: pip_prints_def)
  have h2: "\<forall>l \<in> set (splitlines ?out).
      \<not> (contains l ''Latest version'' \<and> CHR '':'' \<in> set l)"
    by code_simp
  from lookup_results [of "pip_prints ?out" "''foo''" "''https://pypi.org/pypi/''" _ ?out]
  show ?thesis using h1 h2 by simp
qed


section \<open>The order of versions\<close>

lemma lex_cmp_refl: "lex_cmp x x = Equal"
  by (induction x) auto

lemma lex_cmp_Equal_iff: "lex_cmp x y = Equal \<longleftrightarrow> x = y"
  by (induction x y rule: lex_cmp.induct) auto

lemma lex_cmp_Greater_iff: "lex_cmp x y = Greater \<longleftrightarrow> lex_cmp y x = Less"
  by (induction x y rule: lex_cmp.induct) auto

lemma lex_cmp_trans:
  "lex_cmp x y = Less \<Longrightarrow> lex_cmp y z = Less \<Longrightarrow> lex_cmp x z = Less"
proof (induction x y arbitrary: z rule: lex_cmp.induct)
  case 1
  then show ?case by simp
next
  case (2 y ys)
  from "2.prems" (2) show ?case by (cases z) simp_all
next
  case (3 x xs)
  from "3.prems" (1) show ?case by simp
next
  case (4 x xs y ys)
  note IH = "4.IH" and p1 = "4.prems" (1) and p2 = "4.prems" (2)
  show ?case
  proof (cases z)
    case Nil
    with p2 show ?thesis by simp
  next
    case (Cons c cs)
    from p1 have xy: "x < y \<or> (x = y \<and> lex_cmp xs ys = Less)"
      by (auto split: if_splits)
    from p2 have yc: "y < c \<or> (y = c \<and> lex_cmp ys cs = Less)"
      unfolding Cons by (auto split: if_splits)
    show ?thesis
    proof (cases "x < c")
      case True
      then show ?thesis by (simp add: Cons)
    next
      case False
      with xy yc have e: "x = y" "y = c" and l: "lex_cmp xs ys = Less" "lex_cmp ys cs = Less"
        by auto
      from e l have "lex_cmp xs cs = Less" using IH [of cs] by simp
      with e show ?thesis by (simp add: Cons)
    qed
  qed
qed

lemma lex_cmp_append_same:
  "length x = length y \<Longrightarrow> lex_cmp (x @ z) (y @ z) = lex_cmp x y"
  by (induction x y rule: list_induct2) (auto simp add: lex_cmp_refl)

lemma pad_pad:
  assumes "length a \<le> n" and "n \<le> N"
  shows "pad N a = pad n a @ replicate (N - n) 0"
proof -
  have "N - length a = (n - length a) + (N - n)" using assms by simp
  then show ?thesis by (simp add: pad_def replicate_add)
qed

lemma length_pad: "length a \<le> n \<Longrightarrow> length (pad n a) = n"
  by (simp add: pad_def)

lemma compare_release_pad:
  assumes "length a \<le> N" and "length b \<le> N"
  shows "compare_release a b = lex_cmp (pad N a) (pad N b)"
proof -
  let ?n = "max (length a) (length b)"
  have n: "?n \<le> N" using assms by simp
  have "lex_cmp (pad N a) (pad N b) =
      lex_cmp (pad ?n a @ replicate (N - ?n) 0) (pad ?n b @ replicate (N - ?n) 0)"
    using n by (simp add: pad_pad [of a ?n N] pad_pad [of b ?n N])
  also have "\<dots> = lex_cmp (pad ?n a) (pad ?n b)"
    by (rule lex_cmp_append_same) (simp add: length_pad)
  finally show ?thesis by (simp add: compare_release_def Let_def)
qed

lemma compare_release_Greater_iff:
  "compare_release a b = Greater \<longleftrightarrow> compare_release b a = Less"
  by (simp add: compare_release_def Let_def lex_cmp_Greater_iff max.commute)

lemma compare_release_Equal_sym:
  "compare_release a b = Equal \<longleftrightarrow> compare_release b a = Equal"
  by (auto simp add: compare_release_def Let_def lex_cmp_Equal_iff max.commute)

lemma compare_release_trans:
  assumes "compare_release a b \<noteq> Greater" and "compare_release b c \<noteq> Greater"
  shows "compare_release a c \<noteq> Greater \<and>
         (compare_release a c = Equal \<longleftrightarrow>
            compare_release a b = Equal \<and> compare_release b c = Equal)"
proof -
  let ?N = "max (length a) (max (length b) (length c))"
  let ?x = "pad ?N a" and ?y = "pad ?N b" and ?z = "pad ?N c"
  have ab: "compare_release a b = lex_cmp ?x ?y" by (rule compare_release_pad) simp_all
  have bc: "compare_release b c = lex_cmp ?y ?z" by (rule compare_release_pad) simp_all
  have ac: "compare_release a c = lex_cmp ?x ?z" by (rule compare_release_pad) simp_all
  have xy: "lex_cmp ?x ?y = Less \<or> ?x = ?y"
    using assms(1) unfolding ab by (cases "lex_cmp ?x ?y") (simp_all add: lex_cmp_Equal_iff)
  have yz: "lex_cmp ?y ?z = Less \<or> ?y = ?z"
    using assms(2) unfolding bc by (cases "lex_cmp ?y ?z") (simp_all add: lex_cmp_Equal_iff)
  consider "lex_cmp ?x ?y = Less" "lex_cmp ?y ?z = Less"
    | "lex_cmp ?x ?y = Less" "?y = ?z"
    | "?x = ?y" "lex_cmp ?y ?z = Less"
    | "?x = ?y" "?y = ?z"
    using xy yz by blast
  then show ?thesis
  proof cases
    case 1
    then have "lex_cmp ?x ?z = Less" by (rule lex_cmp_trans)
    with 1 show ?thesis unfolding ab bc ac by simp
  next
    case 2
    then show ?thesis unfolding ab bc ac by (simp add: lex_cmp_refl)
  next
    case 3
    then show ?thesis unfolding ab bc ac by (simp add: lex_cmp_refl)
  next
    case 4
    then show ?thesis unfolding ab bc ac by (simp add: lex_cmp_refl)
  qed
qed

lemma compare_qualifier_refl: "compare_qualifier q q = Equal"
  by (cases q) (auto simp add: lex_cmp_refl)

lemma compare_qualifier_Greater_iff:
  "compare_qualifier p q = Greater \<longleftrightarrow> compare_qualifier q p = Less"
proof (induction p q rule: compare_qualifier.induct)
  case (4 t1 n1 t2 n2)
  let ?A = "lex_cmp (map of_char t1) (map of_char t2 :: nat list)"
  let ?B = "lex_cmp (map of_char t2) (map of_char t1 :: nat list)"
  have 1: "?A = Greater \<longleftrightarrow> ?B = Less" by (rule lex_cmp_Greater_iff)
  have 2: "?B = Greater \<longleftrightarrow> ?A = Less" by (rule lex_cmp_Greater_iff)
  have 3: "?A = Equal \<longleftrightarrow> ?B = Equal" by (auto simp add: lex_cmp_Equal_iff)
  show ?case using 1 2 3 by (cases ?A; cases ?B) auto
qed simp_all

lemma compare_qualifier_Equal_sym:
  "compare_qualifier p q = Equal \<longleftrightarrow> compare_qualifier q p = Equal"
proof (induction p q rule: compare_qualifier.induct)
  case (4 t1 n1 t2 n2)
  let ?A = "lex_cmp (map of_char t1) (map of_char t2 :: nat list)"
  let ?B = "lex_cmp (map of_char t2) (map of_char t1 :: nat list)"
  have 1: "?A = Greater \<longleftrightarrow> ?B = Less" by (rule lex_cmp_Greater_iff)
  have 2: "?B = Greater \<longleftrightarrow> ?A = Less" by (rule lex_cmp_Greater_iff)
  have 3: "?A = Equal \<longleftrightarrow> ?B = Equal" by (auto simp add: lex_cmp_Equal_iff)
  show ?case using 1 2 3 by (cases ?A; cases ?B) auto
qed simp_all

lemma compare_qualifier_trans:
  assumes "compare_qualifier p q = Less" and "compare_qualifier q r = Less"
  shows "compare_qualifier p r = Less"
proof -
  from assms obtain t1 n1 t2 n2 where p: "p = Some (t1, n1)" and q: "q = Some (t2, n2)"
    by (cases p; cases q; cases r) auto
  show ?thesis
  proof (cases r)
    case None
    then show ?thesis by (simp add: p)
  next
    case (Some tn)
    obtain t3 n3 where r: "r = Some (t3, n3)" using Some by (cases tn) simp
    let ?a = "map of_char t1 :: nat list" and ?b = "map of_char t2 :: nat list"
      and ?c = "map of_char t3 :: nat list"
    from assms(1) have 1: "lex_cmp ?a ?b = Less \<or> (?a = ?b \<and> n1 < n2)"
      by (auto simp add: p q lex_cmp_Equal_iff split: cmp.splits if_splits)
    from assms(2) have 2: "lex_cmp ?b ?c = Less \<or> (?b = ?c \<and> n2 < n3)"
      by (auto simp add: q r lex_cmp_Equal_iff split: cmp.splits if_splits)
    from 1 2 have "lex_cmp ?a ?c = Less \<or> (?a = ?c \<and> n1 < n3)"
      using lex_cmp_trans [of ?a ?b ?c] by auto
    then show ?thesis
      by (auto simp add: p r lex_cmp_refl)
  qed
qed

lemma version_lt_iff:
  "version_lt a b \<longleftrightarrow>
     compare_release (release a) (release b) = Less \<or>
     (compare_release (release a) (release b) = Equal \<and>
      compare_qualifier (qualifier a) (qualifier b) = Less)"
  by (simp add: version_lt_def compare_versions_def split: cmp.splits)

lemma version_gt_iff_lt: "version_gt a b \<longleftrightarrow> version_lt b a"
  using compare_release_Greater_iff [of "release a" "release b"]
    compare_release_Greater_iff [of "release b" "release a"]
    compare_release_Equal_sym [of "release a" "release b"]
    compare_qualifier_Greater_iff [of "qualifier a" "qualifier b"]
  by (auto simp add: version_gt_def version_lt_def compare_versions_def split: cmp.splits)

lemma version_eq_sym: "version_eq a b \<longleftrightarrow> version_eq b a"
  using compare_release_Equal_sym [of "release a" "release b"]
    compare_qualifier_Equal_sym [of "qualifier a" "qualifier b"]
  by (auto simp add: version_eq_def compare_versions_def split: cmp.splits)

lemma version_lt_trans:
  assumes "version_lt a b" and "version_lt b c"
  shows "version_lt a c"
proof -
  let ?ab = "compare_release (release a) (release b)"
  let ?bc = "compare_release (release b) (release c)"
  let ?ac = "compare_release (release a) (release c)"
  from assms have 1: "?ab \<noteq> Greater" and 2: "?bc \<noteq> Greater"
    by (auto simp add: version_lt_iff)
  note t = compare_release_trans [OF 1 2]
  show ?thesis
  proof (cases "?ab = Equal \<and> ?bc = Equal")
    case True
    with assms have "compare_qualifier (qualifier a) (qualifier b) = Less"
      and "compare_qualifier (qualifier b) (qualifier c) = Less"
      by (auto simp add: version_lt_iff)
    then have "compare_qualifier (qualifier a) (qualifier c) = Less"
      by (rule compare_qualifier_trans)
    moreover from True t have "?ac = Equal" by simp
    ultimately show ?thesis by (simp add: version_lt_iff)
  next
    case False
    with t have "?ac \<noteq> Equal" and "?ac \<noteq> Greater" by auto
    then have "?ac = Less" by (cases ?ac) simp_all
    then show ?thesis by (simp add: version_lt_iff)
  qed
qed

text \<open>
  C7. In the version model of the specification the release segments are compared
  after the shorter sequence is padded with zeros, so that a version equals the
  version with zeros appended to its release segments; a version with a pre-release
  qualifier is less than the version with the same release segments and none; and
  the examples hold: \<open>1.0\<close> equals \<open>1.0.0\<close>, \<open>2\<close> is less than \<open>2.0.1\<close>, and
  \<open>1.0.0a1\<close>, \<open>1.0.0b1\<close>, \<open>1.0.0rc1\<close>, \<open>1.0.0\<close> increase in that order.
\<close>

theorem padding_and_prerelease_order:
  "version_eq \<lparr>release = xs, qualifier = q\<rparr> \<lparr>release = xs @ replicate k 0, qualifier = q\<rparr> \<and>
   version_lt \<lparr>release = xs, qualifier = Some p\<rparr> \<lparr>release = xs, qualifier = None\<rparr> \<and>
   parsed_eq ''1.0'' ''1.0.0'' \<and>
   parsed_lt ''2'' ''2.0.1'' \<and>
   parsed_lt ''1.0.0a1'' ''1.0.0b1'' \<and>
   parsed_lt ''1.0.0b1'' ''1.0.0rc1'' \<and>
   parsed_lt ''1.0.0rc1'' ''1.0.0''"
proof -
  have r: "compare_release xs xs = Equal"
    by (simp add: compare_release_def pad_def lex_cmp_refl)
  have "compare_release xs (xs @ replicate k 0) = Equal"
    by (simp add: compare_release_def pad_def lex_cmp_refl max_def)
  then have 1: "version_eq \<lparr>release = xs, qualifier = q\<rparr>
      \<lparr>release = xs @ replicate k 0, qualifier = q\<rparr>"
    by (simp add: version_eq_def compare_versions_def compare_qualifier_refl)
  have 2: "version_lt \<lparr>release = xs, qualifier = Some p\<rparr> \<lparr>release = xs, qualifier = None\<rparr>"
    using r by (simp add: version_lt_def compare_versions_def)
  have 3: "parsed_eq ''1.0'' ''1.0.0''" by code_simp
  have 4: "parsed_lt ''2'' ''2.0.1''" by code_simp
  have 5: "parsed_lt ''1.0.0a1'' ''1.0.0b1''" by code_simp
  have 6: "parsed_lt ''1.0.0b1'' ''1.0.0rc1''" by code_simp
  have 7: "parsed_lt ''1.0.0rc1'' ''1.0.0''" by code_simp
  from 1 2 3 4 5 6 7 show ?thesis by simp
qed

text \<open>
  C8. In the version model of the specification exactly one of \<open>a < b\<close>, \<open>a = b\<close> and
  \<open>a > b\<close> holds for any two versions. The comparison is a total function, so it
  raises nothing and leaves no pair incomparable. It is an order: \<open>a > b\<close> is \<open>b < a\<close>,
  equality is reflexive and symmetric, and \<open><\<close> is transitive.
\<close>

theorem version_order_total:
  "(version_lt a b \<or> version_eq a b \<or> version_gt a b) \<and>
   \<not> (version_lt a b \<and> version_eq a b) \<and>
   \<not> (version_lt a b \<and> version_gt a b) \<and>
   \<not> (version_eq a b \<and> version_gt a b) \<and>
   (version_gt a b \<longleftrightarrow> version_lt b a) \<and>
   (version_eq a b \<longleftrightarrow> version_eq b a) \<and>
   version_eq a a \<and>
   (version_lt a b \<and> version_lt b c \<longrightarrow> version_lt a c)"
proof -
  have "version_lt a b \<or> version_eq a b \<or> version_gt a b"
    by (cases "compare_versions a b") (simp_all add: version_lt_def version_eq_def version_gt_def)
  moreover have "\<not> (version_lt a b \<and> version_eq a b)"
    and "\<not> (version_lt a b \<and> version_gt a b)"
    and "\<not> (version_eq a b \<and> version_gt a b)"
    by (simp_all add: version_lt_def version_eq_def version_gt_def)
  moreover have "version_eq a a"
    by (simp add: version_eq_def compare_versions_def compare_release_def lex_cmp_refl
        compare_qualifier_refl)
  moreover have "version_lt a b \<and> version_lt b c \<longrightarrow> version_lt a c"
    using version_lt_trans by blast
  ultimately show ?thesis
    using version_gt_iff_lt [of a b] version_eq_sym [of a b] by blast
qed

theorem version_order_total_witness:
  "version_lt \<lparr>release = [1, 0, 0], qualifier = Some (''a'', 1)\<rparr>
              \<lparr>release = [1, 0], qualifier = Some (''b'', 1)\<rparr> \<and>
   version_lt \<lparr>release = [1, 0], qualifier = Some (''b'', 1)\<rparr>
              \<lparr>release = [1], qualifier = None\<rparr> \<and>
   version_lt \<lparr>release = [1, 0, 0], qualifier = Some (''a'', 1)\<rparr>
              \<lparr>release = [1], qualifier = None\<rparr>"
proof -
  have h1: "version_lt \<lparr>release = [1, 0, 0], qualifier = Some (''a'', 1)\<rparr>
              \<lparr>release = [1, 0], qualifier = Some (''b'', 1)\<rparr>"
    by code_simp
  have h2: "version_lt \<lparr>release = [1, 0], qualifier = Some (''b'', 1)\<rparr>
              \<lparr>release = [1], qualifier = None\<rparr>"
    by code_simp
  from version_order_total [of "\<lparr>release = [1, 0, 0], qualifier = Some (''a'', 1)\<rparr>"
      "\<lparr>release = [1, 0], qualifier = Some (''b'', 1)\<rparr>" "\<lparr>release = [1], qualifier = None\<rparr>"]
  show ?thesis using h1 h2 by blast
qed

end
